theory Spec2Isabelle
  imports Main "HOL-Library.Sublist"
begin

section \<open>Data model\<close>

subsection \<open>Errors\<close>

text \<open>
  The two exceptions the adapter can raise: the \<open>Error\<close> constructed in
  \<open>useNestedEditorContext\<close>, and the \<open>TypeError\<close> of JavaScript when a property or a
  method is read from \<open>null\<close> or \<open>undefined\<close>.
\<close>

datatype error = Error string | TypeError string

subsection \<open>The abstract syntax tree\<close>

text \<open>
  A unist node is one of three shapes: a literal (\<open>type\<close> and \<open>value\<close>), a parent
  (\<open>type\<close> and \<open>children\<close>) or a node with a \<open>type\<close> only (a thematic break).
  A paragraph is \<open>Parent ''paragraph'' cs\<close>, a text node \<open>Literal ''text'' v\<close>.
\<close>

datatype mdast =
    Literal string string
  | Parent string "mdast list"
  | Void string

text \<open>The root of a tree, \<open>{ type: 'root', children }\<close>.\<close>

datatype mdast_root = Root "mdast list"

fun root_children :: "mdast_root \<Rightarrow> mdast list" where
  "root_children (Root cs) = cs"

text \<open>
  Reading \<open>node.children\<close>: the list of a parent, \<open>undefined\<close> (here \<open>None\<close>) on a
  node that has no such property. The cast \<open>as Mdast.Paragraph\<close> of the source does
  nothing at run time.
\<close>

fun children_prop :: "mdast \<Rightarrow> mdast list option" where
  "children_prop (Parent ty cs) = Some cs"
| "children_prop (Literal ty v) = None"
| "children_prop (Void ty) = None"

text \<open>The text a fragment carries: the values of its literals, in document order.\<close>

fun mdast_text :: "mdast \<Rightarrow> string" where
  "mdast_text (Literal ty v) = v"
| "mdast_text (Parent ty cs) = concat (map mdast_text cs)"
| "mdast_text (Void ty) = []"

definition content_text :: "mdast list option \<Rightarrow> string" where
  "content_text c = (case c of None \<Rightarrow> [] | Some cs \<Rightarrow> concat (map mdast_text cs))"

subsection \<open>The child editing surface\<close>

text \<open>
  The nodes of an editing surface: a node that holds text, an element with children, and
  a node with neither. The state of the child surface is the list of the children of its
  root; \<open>$getRoot().clear()\<close> leaves the empty list.
\<close>

datatype lexical =
    LexicalText string string
  | LexicalElement string "lexical list"
  | LexicalVoid string

type_synonym child_surface = "lexical list"

definition clear :: "child_surface \<Rightarrow> child_surface" where
  "clear root = []"

text \<open>
  Modelled from the spec: \<open>importMdastTreeToLexical\<close> (module
  \<open>importMarkdownToLexical\<close>) and \<open>exportLexicalTreeToMdast\<close> (module
  \<open>exportMarkdownFromLexical\<close>) are imported by the adapter and are not among the source
  files. The spec says of them that the child surface's content is always expressible as a
  slice of abstract-tree content nodes, and that an import followed by an export gives the
  content back. The model translates every abstract node into the surface node of the same
  type, appends the translated children of the abstract root to the surface root, and
  translates back on export. The visitor registries passed to both are not modelled.
\<close>

fun importNode :: "mdast \<Rightarrow> lexical" where
  "importNode (Literal ty v) = LexicalText ty v"
| "importNode (Parent ty cs) = LexicalElement ty (map importNode cs)"
| "importNode (Void ty) = LexicalVoid ty"

fun exportNode :: "lexical \<Rightarrow> mdast" where
  "exportNode (LexicalText ty v) = Literal ty v"
| "exportNode (LexicalElement ty cs) = Parent ty (map exportNode cs)"
| "exportNode (LexicalVoid ty) = Void ty"

definition importMdastTreeToLexical :: "child_surface \<Rightarrow> mdast_root \<Rightarrow> child_surface" where
  "importMdastTreeToLexical root mdastRoot = root @ map importNode (root_children mdastRoot)"

definition exportLexicalTreeToMdast :: "child_surface \<Rightarrow> mdast_root" where
  "exportLexicalTreeToMdast root = Root (map exportNode root)"

section \<open>The nested editor adapter\<close>

subsection \<open>The context hook\<close>

text \<open>
  \<open>useNestedEditorContext\<close>: the value of \<open>React.useContext\<close> is \<open>undefined\<close> outside
  a provider (the default of \<open>NestedEditorsContext\<close>), here \<open>None\<close>. A context value is
  an object, so \<open>!context\<close> holds exactly for \<open>undefined\<close>.
\<close>

definition useNestedEditorContext :: "'c option \<Rightarrow> error + 'c" where
  "useNestedEditorContext context =
     (case context of
        None \<Rightarrow> Inl (Error ''useNestedEditor must be used within a NestedEditorsProvider'')
      | Some c \<Rightarrow> Inr c)"

subsection \<open>The import effect\<close>

text \<open>
  The body of the first effect of \<open>NestedLexicalEditor\<close>: clear the root, choose what
  to import by the \<open>block\<close> flag, import it under a fresh abstract root.
\<close>

definition theContent :: "bool \<Rightarrow> mdast list \<Rightarrow> mdast list" where
  "theContent block content =
     (if block then (if length content = 0 then [Parent ''paragraph'' []] else content)
      else [Parent ''paragraph'' content])"

definition import_effect :: "bool \<Rightarrow> mdast list \<Rightarrow> child_surface \<Rightarrow> child_surface" where
  "import_effect block content root =
     importMdastTreeToLexical (clear root) (Root (theContent block content))"

subsection \<open>The export of the blur handler\<close>

text \<open>
  The first two statements of the blur handler: export the child surface, then take the
  children of the exported root (block mode) or the children of its first child (inline
  mode). In inline mode \<open>mdast.children[0]\<close> is \<open>undefined\<close> when the exported root has
  no child, and reading \<open>.children\<close> from it raises a \<open>TypeError\<close>; the
  non-null assertion \<open>!\<close> is erased at run time.
\<close>

definition export_content :: "bool \<Rightarrow> child_surface \<Rightarrow> error + mdast list option" where
  "export_content block root =
     (let mdast = exportLexicalTreeToMdast root in
      if block then Inr (Some (root_children mdast))
      else (case root_children mdast of
              [] \<Rightarrow> Inl (TypeError ''Cannot read properties of undefined (reading children)'')
            | c # _ \<Rightarrow> Inr (children_prop c)))"

subsection \<open>The parent editing surface\<close>

text \<open>
  What the adapter uses of the parent surface: its nodes in document order, each found by
  its key and holding an abstract node (\<open>$getNodeByKey\<close>), the selection, and the
  committed updates with the tags each one carried. The payload of a node is a parameter:
  an abstract node as a value, or the address of one in a store.
\<close>

type_synonym node_key = string

datatype selection = NoSelection | SelectNode node_key | SelectParent

record 'm parent_editor =
  nodes :: "(node_key \<times> 'm) list"
  selection :: selection
  history :: "string list list"

text \<open>The state of a running update: the pending surface and the tags added so far.\<close>

type_synonym 'm update_state = "'m parent_editor \<times> string list"

text \<open>
  \<open>parentEditor.update(fn)\<close>, the transaction of the host engine: the closure runs on
  the pending state; when it returns, the update is committed and its tags are recorded.
  An exception raised by the closure ends the transaction with nothing committed; the
  engine hands it to the surface's error callback, and it is the result here.
\<close>

definition update ::
  "('m update_state \<Rightarrow> error + 'm update_state) \<Rightarrow> 'm parent_editor \<Rightarrow> error + 'm parent_editor" where
  "update fn p =
     (case fn (p, []) of
        Inl e \<Rightarrow> Inl e
      | Inr (p', tags) \<Rightarrow> Inr (p'\<lparr>history := history p' @ [tags]\<rparr>))"

definition addUpdateTag :: "string \<Rightarrow> 'm update_state \<Rightarrow> 'm update_state" where
  "addUpdateTag tag s = (fst s, snd s @ [tag])"

definition getNodeByKey :: "'m parent_editor \<Rightarrow> node_key \<Rightarrow> 'm option" where
  "getNodeByKey p key = map_of (nodes p) key"

text \<open>
  Modelled from the spec: \<open>setMdastNode\<close> is a method of the decorator node classes,
  which are not among the source files; the spec calls it a setter for replacing the
  abstract node associated with the lexical node.
\<close>

definition setMdastNode :: "node_key \<Rightarrow> 'm \<Rightarrow> 'm parent_editor \<Rightarrow> 'm parent_editor" where
  "setMdastNode key node p =
     p\<lparr>nodes := map (\<lambda>(k, m). if k = key then (k, node) else (k, m)) (nodes p)\<rparr>"

text \<open>
  The engine's \<open>selectNext\<close> and \<open>remove\<close> of a node: the selection goes to the sibling
  that follows the node, or to the parent element when there is none; the node leaves the
  surface.
\<close>

fun nextSibling :: "node_key \<Rightarrow> (node_key \<times> 'm) list \<Rightarrow> node_key option" where
  "nextSibling key [] = None"
| "nextSibling key [x] = None"
| "nextSibling key (x # y # xs) = (if fst x = key then Some (fst y) else nextSibling key (y # xs))"

definition selectNext :: "node_key \<Rightarrow> 'm parent_editor \<Rightarrow> 'm parent_editor" where
  "selectNext key p =
     p\<lparr>selection := (case nextSibling key (nodes p) of
                        None \<Rightarrow> SelectParent
                      | Some k \<Rightarrow> SelectNode k)\<rparr>"

definition remove :: "node_key \<Rightarrow> 'm parent_editor \<Rightarrow> 'm parent_editor" where
  "remove key p = p\<lparr>nodes := filter (\<lambda>(k, m). k \<noteq> key) (nodes p)\<rparr>"

subsection \<open>The context and the two hooks built on it\<close>

text \<open>
  The value of \<open>NestedEditorsContext\<close>: the abstract node and the key of the lexical
  node that owns the adapter (\<open>lexicalNode.getKey()\<close>). The parent surface is the state
  the hooks act on and is passed to them.
\<close>

record 'm nested_editors_context =
  mdastNode :: 'm
  lexicalNode :: node_key

text \<open>
  \<open>updateMdastNode\<close>, the function \<open>useMdastNodeUpdater\<close> returns: one update of the
  parent surface that adds the tag, looks the node up by its key and sets the abstract
  node only if the lookup found a node.
\<close>

definition updateMdastNode :: "node_key \<Rightarrow> 'm \<Rightarrow> 'm parent_editor \<Rightarrow> error + 'm parent_editor" where
  "updateMdastNode key node p =
     update (\<lambda>s0.
       let s = addUpdateTag ''history-push'' s0;
           currentNode = getNodeByKey (fst s) key
       in (case currentNode of
             None \<Rightarrow> Inr s
           | Some _ \<Rightarrow> Inr (setMdastNode key node (fst s), snd s))) p"

definition useMdastNodeUpdater ::
  "'m nested_editors_context option \<Rightarrow> error + ('m \<Rightarrow> 'm parent_editor \<Rightarrow> error + 'm parent_editor)" where
  "useMdastNodeUpdater context =
     (case useNestedEditorContext context of
        Inl e \<Rightarrow> Inl e
      | Inr c \<Rightarrow> Inr (updateMdastNode (lexicalNode c)))"

text \<open>
  The function \<open>useLexicalNodeRemove\<close> returns: one update of the parent surface that
  looks the node up and calls \<open>selectNext\<close> and \<open>remove\<close> on what the lookup returned.
  The non-null assertions of \<open>node!.selectNext()\<close> are erased at run time, so the call
  on \<open>null\<close> raises a \<open>TypeError\<close>.
\<close>

definition removeNode :: "node_key \<Rightarrow> 'm parent_editor \<Rightarrow> error + 'm parent_editor" where
  "removeNode key p =
     update (\<lambda>s.
       (case getNodeByKey (fst s) key of
          None \<Rightarrow> Inl (TypeError ''Cannot read properties of null (reading selectNext)'')
        | Some _ \<Rightarrow> Inr (remove key (selectNext key (fst s)), snd s))) p"

definition useLexicalNodeRemove ::
  "'m nested_editors_context option \<Rightarrow> error + ('m parent_editor \<Rightarrow> error + 'm parent_editor)" where
  "useLexicalNodeRemove context =
     (case useNestedEditorContext context of
        Inl e \<Rightarrow> Inl e
      | Inr c \<Rightarrow> Inr (removeNode (lexicalNode c)))"

subsection \<open>The component: rendering and the import effect\<close>

text \<open>
  The props of \<open>NestedLexicalEditor\<close>; \<open>block\<close> is optional and defaults to \<open>false\<close>.
  The content is \<open>undefined\<close> (\<open>None\<close>) in the call of \<open>getUpdatedMdastNode\<close> when the
  first exported child has no \<open>children\<close>.
\<close>

record nested_editor_props =
  getContent :: "mdast \<Rightarrow> mdast list"
  getUpdatedMdastNode :: "mdast \<Rightarrow> mdast list option \<Rightarrow> mdast"
  block :: "bool option"

definition block_flag :: "nested_editor_props \<Rightarrow> bool" where
  "block_flag props = (case block props of None \<Rightarrow> False | Some b \<Rightarrow> b)"

text \<open>
  What one mounted adapter keeps between renders: the child surface, made once by
  \<open>createEditor\<close> with an empty root, and the dependencies the import effect last ran
  with. The dependency list of the effect is \<open>[editor, block, importVisitors]\<close>; the
  editor never changes while the adapter is mounted, the visitor registry is compared by
  identity (a number here), and the content is not in the list.
\<close>

record adapter =
  child :: child_surface
  import_deps :: "(bool \<times> nat) option"

definition mount :: adapter where
  "mount = \<lparr>child = [], import_deps = None\<rparr>"

text \<open>
  One render of the component followed by its effects: the context is read (and the
  render fails outside a provider), the content is computed, and the import effect runs
  on the first render and whenever a dependency differs from the previous render's.
\<close>

definition NestedLexicalEditor ::
  "nested_editor_props \<Rightarrow> nat \<Rightarrow> mdast nested_editors_context option \<Rightarrow> adapter \<Rightarrow> error + adapter" where
  "NestedLexicalEditor props importVisitors context st =
     (case useNestedEditorContext context of
        Inl e \<Rightarrow> Inl e
      | Inr c \<Rightarrow>
          let content = getContent props (mdastNode c);
              deps = (block_flag props, importVisitors)
          in if import_deps st = Some deps then Inr st
             else Inr \<lparr>child = import_effect (block_flag props) content (child st),
                       import_deps = Some deps\<rparr>)"

subsection \<open>The blur handler\<close>

text \<open>
  \<open>structuredClone\<close> on values: a deep copy is equal to what it copies. What the copy
  does to the identity of the objects is the subject of the store model below.
\<close>

definition structuredClone :: "mdast \<Rightarrow> mdast" where
  "structuredClone node = node"

text \<open>
  The outcome of a handler run: the value it returns to the command dispatcher, the calls
  of \<open>getUpdatedMdastNode\<close> it made with their arguments, and the parent surface after.
\<close>

record 'm handler_outcome =
  handled :: bool
  updater_calls :: "(mdast \<times> mdast list option) list"
  parent :: "'m parent_editor"

definition blur_handler ::
  "nested_editor_props \<Rightarrow> mdast nested_editors_context \<Rightarrow> child_surface \<Rightarrow> mdast parent_editor
     \<Rightarrow> error + mdast handler_outcome" where
  "blur_handler props c root p =
     (case export_content (block_flag props) root of
        Inl e \<Rightarrow> Inl e
      | Inr content \<Rightarrow>
          let arg = structuredClone (mdastNode c);
              node = getUpdatedMdastNode props arg content
          in (case updateMdastNode (lexicalNode c) node p of
                Inl e \<Rightarrow> Inl e
              | Inr p' \<Rightarrow> Inr \<lparr>handled = True, updater_calls = [(arg, content)], parent = p'\<rparr>))"

subsection \<open>The backspace handler\<close>


subsection \<open>The text the child surface holds\<close>

text \<open>
  The text of a node of the child surface: the text of its text nodes, in document order.
  A child surface reached after a text was typed holds that text, wherever the engine put
  it: in a new text node or inside an existing one, at any depth. The export of the blur
  handler covers the whole surface in block mode and, in inline mode, the children of the
  first top-level node; \<open>covered_text\<close> is the text of the part it covers.
\<close>

fun lexical_text :: "lexical \<Rightarrow> string" where
  "lexical_text (LexicalText ty v) = v"
| "lexical_text (LexicalElement ty cs) = concat (map lexical_text cs)"
| "lexical_text (LexicalVoid ty) = []"

definition covered_text :: "bool \<Rightarrow> child_surface \<Rightarrow> string" where
  "covered_text b root =
     (if b then concat (map lexical_text root)
      else (case root of
              LexicalElement ty cs # _ \<Rightarrow> concat (map lexical_text cs)
            | _ \<Rightarrow> []))"

section \<open>The top-level wrapper\<close>

text \<open>
  The initial configuration \<open>standardConfig\<close> builds: the closure that fills the root
  surface from the markdown string, the namespace, and the error callback, which prints
  the error with \<open>console.error\<close> and returns. The console is the list of what was
  printed. The theme and the node classes are constants that play no part here.
  \<open>importMarkdownToLexical\<close> is not among the source files and is a parameter: it
  fills the root or raises.
\<close>

record initial_config =
  editorState :: "child_surface \<Rightarrow> error + child_surface"
  namespace :: string
  onError :: "error \<Rightarrow> error list \<Rightarrow> error + error list"

definition standardConfig ::
  "(child_surface \<Rightarrow> string \<Rightarrow> error + child_surface) \<Rightarrow> string \<Rightarrow> initial_config" where
  "standardConfig importMarkdownToLexical markdown =
     \<lparr>editorState = (\<lambda>root. importMarkdownToLexical root markdown),
      namespace = ''MyEditor'',
      onError = (\<lambda>error console. Inr (console @ [error]))\<rparr>"

text \<open>
  Modelled from the spec: \<open>LexicalComposer\<close> constructs the root surface from the
  initial configuration and is not among the source files. The spec says that errors
  during construction are caught and logged, not thrown. The model runs the
  \<open>editorState\<close> closure on an empty root inside the engine's update; an error it
  raises is handed to the configuration's \<open>onError\<close> and the root stays empty; only an
  error raised by \<open>onError\<close> itself leaves the construction.
\<close>

definition LexicalComposer :: "initial_config \<Rightarrow> error list \<Rightarrow> error + child_surface \<times> error list" where
  "LexicalComposer initialConfig console =
     (case editorState initialConfig [] of
        Inr root \<Rightarrow> Inr (root, console)
      | Inl e \<Rightarrow>
          (case onError initialConfig e console of
             Inl e' \<Rightarrow> Inl e'
           | Inr console' \<Rightarrow> Inr ([], console')))"

definition Wrapper ::
  "(child_surface \<Rightarrow> string \<Rightarrow> error + child_surface) \<Rightarrow> string \<Rightarrow> error list
     \<Rightarrow> error + child_surface \<times> error list" where
  "Wrapper importMarkdownToLexical markdown console =
     LexicalComposer (standardConfig importMarkdownToLexical markdown) console"

section \<open>Abstract nodes as objects in a store\<close>

text \<open>
  Whether the blur handler can change the abstract node it was given depends on which
  objects are shared, so here the abstract nodes are objects in a store. An object has
  its \<open>type\<close>, its \<open>value\<close> if it has one, and the addresses of its children if it has
  \<open>children\<close>. The store is the list of all objects; an address is an index, and a new
  object gets the next free index.
\<close>

type_synonym addr = nat

datatype obj = Obj string "string option" "addr list option"

type_synonym store = "obj list"

fun obj_children :: "obj \<Rightarrow> addr list option" where
  "obj_children (Obj ty v ks) = ks"

text \<open>Building a tree of new objects, children first: what an export produces.\<close>

fun alloc :: "mdast \<Rightarrow> store \<Rightarrow> addr \<times> store"
  and alloc_list :: "mdast list \<Rightarrow> store \<Rightarrow> addr list \<times> store" where
  "alloc (Literal ty v) h = (length h, h @ [Obj ty (Some v) None])"
| "alloc (Parent ty cs) h =
     (case alloc_list cs h of (ks, h') \<Rightarrow> (length h', h' @ [Obj ty None (Some ks)]))"
| "alloc (Void ty) h = (length h, h @ [Obj ty None None])"
| "alloc_list [] h = ([], h)"
| "alloc_list (c # cs) h =
     (case alloc c h of (k, h') \<Rightarrow>
        (case alloc_list cs h' of (ks, h'') \<Rightarrow> (k # ks, h'')))"

text \<open>
  \<open>structuredClone\<close>: a deep copy. Every object reached from the address is copied
  into a new object, children first, and the copy of a parent points to the copies of its
  children. The recursion follows the pointers of the store, so it carries fuel; the
  number of objects in the store is enough for every tree. \<open>None\<close> stands for a store
  in which the address does not hold a tree (a dangling address or a cycle), which an
  abstract syntax tree never is.
\<close>

fun thread ::
  "(addr \<Rightarrow> store \<Rightarrow> (addr \<times> store) option) \<Rightarrow> addr list \<Rightarrow> store \<Rightarrow> (addr list \<times> store) option" where
  "thread f [] h = Some ([], h)"
| "thread f (k # ks) h =
     (case f k h of
        None \<Rightarrow> None
      | Some (k', h') \<Rightarrow>
          (case thread f ks h' of None \<Rightarrow> None | Some (ks', h'') \<Rightarrow> Some (k' # ks', h'')))"

fun clone :: "nat \<Rightarrow> addr \<Rightarrow> store \<Rightarrow> (addr \<times> store) option" where
  "clone 0 a h = None"
| "clone (Suc n) a h =
     (if a < length h then
        (case h ! a of
           Obj ty v None \<Rightarrow> Some (length h, h @ [Obj ty v None])
         | Obj ty v (Some ks) \<Rightarrow>
             (case thread (clone n) ks h of
                None \<Rightarrow> None
              | Some (ks', h') \<Rightarrow> Some (length h', h' @ [Obj ty v (Some ks')])))
      else None)"

definition structuredClone_store :: "addr \<Rightarrow> store \<Rightarrow> (addr \<times> store) option" where
  "structuredClone_store a h = clone (length h) a h"

text \<open>The objects that can be reached from a set of addresses through \<open>children\<close>.\<close>

inductive_set reach :: "store \<Rightarrow> addr set \<Rightarrow> addr set" for h :: store and S :: "addr set" where
  start: "a \<in> S \<Longrightarrow> a \<in> reach h S"
| step: "a \<in> reach h S \<Longrightarrow> a < length h \<Longrightarrow> obj_children (h ! a) = Some ks \<Longrightarrow> k \<in> set ks
         \<Longrightarrow> k \<in> reach h S"

definition content_addrs :: "addr list option \<Rightarrow> addr set" where
  "content_addrs content = (case content of None \<Rightarrow> {} | Some ks \<Rightarrow> set ks)"

text \<open>
  A caller-supplied \<open>getUpdatedMdastNode\<close> on the store takes the node and the content
  and returns a node; it may write to objects and make new ones. It acts on its arguments
  when it removes no object and leaves every object alone that cannot be reached from the
  node or the content it was given.
\<close>

definition writes_through_arguments ::
  "(addr \<Rightarrow> addr list option \<Rightarrow> store \<Rightarrow> addr \<times> store) \<Rightarrow> bool" where
  "writes_through_arguments f \<longleftrightarrow>
     (\<forall>a content h node h'. f a content h = (node, h') \<longrightarrow>
        length h \<le> length h'
        \<and> (\<forall>x < length h. x \<notin> reach h (insert a (content_addrs content)) \<longrightarrow> h' ! x = h ! x))"

text \<open>
  The export of the blur handler on the store: the exported tree is made of new objects
  under a new root object; the content is the \<open>children\<close> of the root (block mode) or
  of its first child (inline mode, a \<open>TypeError\<close> when there is none).
\<close>

definition export_content_store ::
  "bool \<Rightarrow> child_surface \<Rightarrow> store \<Rightarrow> (error + addr list option) \<times> store" where
  "export_content_store b root h =
     (case alloc_list (root_children (exportLexicalTreeToMdast root)) h of
        (ks, h1) \<Rightarrow>
          let h2 = h1 @ [Obj ''root'' None (Some ks)] in
          (if b then Inr (Some ks)
           else (case ks of
                   [] \<Rightarrow> Inl (TypeError ''Cannot read properties of undefined (reading children)'')
                 | k # _ \<Rightarrow> Inr (obj_children (h2 ! k))), h2))"

text \<open>
  The blur handler on the store: export, copy the abstract node of the context, call
  \<open>getUpdatedMdastNode\<close> on the copy and the content, and hand the node it returns to
  \<open>updateMdastNode\<close>. The state is the store with the parent surface, whose nodes hold
  the addresses of their abstract nodes.
\<close>

definition blur_handler_store ::
  "(addr \<Rightarrow> addr list option \<Rightarrow> store \<Rightarrow> addr \<times> store) \<Rightarrow> bool \<Rightarrow> addr nested_editors_context
     \<Rightarrow> child_surface \<Rightarrow> store \<times> addr parent_editor \<Rightarrow> (error + store \<times> addr parent_editor) option" where
  "blur_handler_store getUpdated b c root s =
     (case export_content_store b root (fst s) of
        (Inl e, h2) \<Rightarrow> Some (Inl e)
      | (Inr content, h2) \<Rightarrow>
          (case structuredClone_store (mdastNode c) h2 of
             None \<Rightarrow> None
           | Some (arg, h3) \<Rightarrow>
               (case getUpdated arg content h3 of
                  (node, h4) \<Rightarrow>
                    (case updateMdastNode (lexicalNode c) node (snd s) of
                       Inl e \<Rightarrow> Some (Inl e)
                     | Inr p' \<Rightarrow> Some (Inr (h4, p'))))))"

text \<open>
  Two notions for the proofs. From an address \<open>L\<close> on a store is closed when the objects
  at \<open>L\<close> and above point only to objects at \<open>L\<close> and above. An operation allocates
  when it only appends objects, returns one of them, and keeps the store closed.
\<close>

definition closed_from :: "nat \<Rightarrow> store \<Rightarrow> bool" where
  "closed_from L h \<longleftrightarrow>
     (\<forall>x ks k. L \<le> x \<longrightarrow> x < length h \<longrightarrow> obj_children (h ! x) = Some ks \<longrightarrow> k \<in> set ks
        \<longrightarrow> L \<le> k \<and> k < length h)"

definition allocating :: "('a \<Rightarrow> store \<Rightarrow> (addr \<times> store) option) \<Rightarrow> bool" where
  "allocating f \<longleftrightarrow>
     (\<forall>a h a' h' L. f a h = Some (a', h') \<longrightarrow> L \<le> length h \<longrightarrow> closed_from L h \<longrightarrow>
        prefix h h' \<and> length h \<le> a' \<and> a' < length h' \<and> closed_from L h')"

fun node_count :: "mdast \<Rightarrow> nat" where
  "node_count (Literal ty v) = 1"
| "node_count (Parent ty cs) = Suc (sum_list (map node_count cs))"
| "node_count (Void ty) = 1"

section \<open>Sequences of renders and example inputs\<close>

text \<open>The adapter over a sequence of renders, each with its props, registry and context.\<close>

fun renders ::
  "(nested_editor_props \<times> nat \<times> mdast nested_editors_context option) list \<Rightarrow> adapter \<Rightarrow> error + adapter" where
  "renders [] st = Inr st"
| "renders ((props, v, context) # rs) st =
     (case NestedLexicalEditor props v context st of Inl e \<Rightarrow> Inl e | Inr st' \<Rightarrow> renders rs st')"

text \<open>
  The props of the example in the documentation of the component:
  \<open>getContent = node => node.children\<close> and
  \<open>getUpdatedMdastNode = (node, children) => ({ ...node, children })\<close>, on parents.
\<close>

fun example_getContent :: "mdast \<Rightarrow> mdast list" where
  "example_getContent (Parent ty cs) = cs"
| "example_getContent (Literal ty v) = []"
| "example_getContent (Void ty) = []"

definition example_getUpdatedMdastNode :: "mdast \<Rightarrow> mdast list option \<Rightarrow> mdast" where
  "example_getUpdatedMdastNode node children =
     (case (node, children) of (Parent ty _, Some cs) \<Rightarrow> Parent ty cs | _ \<Rightarrow> node)"

definition example_props :: "bool option \<Rightarrow> nested_editor_props" where
  "example_props b =
     \<lparr>getContent = example_getContent, getUpdatedMdastNode = example_getUpdatedMdastNode, block = b\<rparr>"

definition example_context :: "mdast nested_editors_context" where
  "example_context = \<lparr>mdastNode = Parent ''leafDirective'' [Literal ''text'' ''a''], lexicalNode = ''k1''\<rparr>"

definition example_parent :: "mdast parent_editor" where
  "example_parent =
     \<lparr>nodes = [(''k0'', Void ''thematicBreak''),
               (''k1'', Parent ''leafDirective'' [Literal ''text'' ''a'']),
               (''k2'', Void ''thematicBreak'')],
      selection = NoSelection, history = []\<rparr>"

text \<open>The parent surface after the owning node \<open>k1\<close> was removed from it.\<close>

definition stale_parent :: "mdast parent_editor" where
  "stale_parent =
     \<lparr>nodes = [(''k0'', Void ''thematicBreak''), (''k2'', Void ''thematicBreak'')],
      selection = NoSelection, history = []\<rparr>"

definition context_a :: "mdast nested_editors_context" where
  "context_a = \<lparr>mdastNode = Parent ''containerDirective'' [Parent ''paragraph'' [Literal ''text'' ''a'']],
                lexicalNode = ''k1''\<rparr>"

definition context_b :: "mdast nested_editors_context" where
  "context_b = \<lparr>mdastNode = Parent ''containerDirective'' [Parent ''paragraph'' [Literal ''text'' ''b'']],
                lexicalNode = ''k1''\<rparr>"

text \<open>An importer that fails on one input, as a parser does on malformed markdown.\<close>

definition example_importMarkdownToLexical :: "child_surface \<Rightarrow> string \<Rightarrow> error + child_surface" where
  "example_importMarkdownToLexical root markdown =
     (if markdown = ''<'' then Inl (Error ''Unexpected end of file'')
      else Inr (root @ [LexicalElement ''paragraph'' [LexicalText ''text'' markdown]]))"

text \<open>
  An updater that writes to its argument: \<open>node.children = children; return node\<close>.
\<close>

definition assign_children :: "addr \<Rightarrow> addr list option \<Rightarrow> store \<Rightarrow> addr \<times> store" where
  "assign_children a content h =
     (a, if a < length h then h[a := (case h ! a of Obj ty v ks \<Rightarrow> Obj ty v content)] else h)"

text \<open>
  A store that holds the directive \<open>{ type: 'leafDirective', children: [text a] }\<close> at
  address 1, and a parent surface whose node \<open>k1\<close> holds it.
\<close>

definition example_store :: store where
  "example_store = [Obj ''text'' (Some ''a'') None, Obj ''leafDirective'' None (Some [0])]"

definition example_store_parent :: "addr parent_editor" where
  "example_store_parent = \<lparr>nodes = [(''k1'', 1)], selection = NoSelection, history = []\<rparr>"

section \<open>Import and export\<close>

lemma exportNode_importNode: "exportNode (importNode n) = n"
  by (induction n) (simp_all add: map_idI)

lemma export_import_list: "map (exportNode \<circ> importNode) cs = cs"
  by (simp add: exportNode_importNode map_idI)

lemma export_import_effect:
  "exportLexicalTreeToMdast (import_effect b content root) = Root (theContent b content)"
  by (simp add: exportLexicalTreeToMdast_def import_effect_def importMdastTreeToLexical_def
      clear_def export_import_list)

lemma theContent_nonempty: "theContent b content \<noteq> []"
  by (simp add: theContent_def)

lemma import_effect_eq: "import_effect b content root = map importNode (theContent b content)"
  by (simp add: import_effect_def importMdastTreeToLexical_def clear_def)

text \<open>The child surface always has a top-level node after an import.\<close>

lemma import_effect_nonempty: "import_effect b content root \<noteq> []"
  by (simp add: import_effect_eq theContent_nonempty)

lemma first_render_nonempty:
  "import_deps st = None \<Longrightarrow> NestedLexicalEditor props v context st = Inr st' \<Longrightarrow> child st' \<noteq> []"
  by (auto simp: NestedLexicalEditor_def Let_def import_effect_nonempty split: sum.splits)

lemma export_content_ok:
  "b \<or> root \<noteq> [] \<Longrightarrow> \<exists>content. export_content b root = Inr content"
  by (cases root) (auto simp: export_content_def exportLexicalTreeToMdast_def Let_def)

text \<open>
  C7. In block mode, when the getter gives the empty content array, the import step puts
  one empty paragraph in its place, and the child surface then holds exactly one empty
  paragraph, whatever it held before.
\<close>

theorem empty_block_substitution:
  "theContent True [] = [Parent ''paragraph'' []]
   \<and> import_effect True [] root = [LexicalElement ''paragraph'' []]"
  by (simp add: import_effect_eq theContent_def)

text \<open>
  C1, as stated, fails on the empty content array in block mode: the import puts an empty
  paragraph in its place, and the export gives that paragraph back, not the empty array.
\<close>

theorem round_trip_empty_block_counterexample:
  "export_content True (import_effect True [] []) = Inr (Some [Parent ''paragraph'' []])
   \<and> export_content True (import_effect True [] []) \<noteq> Inr (Some [])"
  by (simp add: export_content_def export_import_effect theContent_def)

text \<open>
  C1, amended. Importing a content array and exporting the child surface at once gives
  the content array back: in inline mode for every content array (the paragraph added
  before the import is taken off by the export), in block mode for every content array
  that is not empty.
\<close>

theorem round_trip:
  "(b \<longrightarrow> content \<noteq> []) \<Longrightarrow> export_content b (import_effect b content root) = Inr (Some content)"
  by (simp add: export_content_def export_import_effect theContent_def)

theorem round_trip_witness:
  "[Parent ''paragraph'' [Literal ''text'' ''a''], Void ''thematicBreak''] \<noteq> []
   \<and> export_content True
       (import_effect True [Parent ''paragraph'' [Literal ''text'' ''a''], Void ''thematicBreak''] [])
     = Inr (Some [Parent ''paragraph'' [Literal ''text'' ''a''], Void ''thematicBreak''])
   \<and> export_content False (import_effect False [] [LexicalVoid ''thematicBreak'']) = Inr (Some [])"
  using round_trip [of True "[Parent ''paragraph'' [Literal ''text'' ''a''], Void ''thematicBreak'']" "[]"]
    round_trip [of False "[]" "[LexicalVoid ''thematicBreak'']"]
  by simp

section \<open>The context\<close>

text \<open>
  C8. Reading the nested-editor context outside a provider raises the error of the hook at
  once; with a provider the hook returns the provided value and raises nothing.
\<close>

theorem useNestedEditorContext_provider:
  "useNestedEditorContext None
     = Inl (Error ''useNestedEditor must be used within a NestedEditorsProvider'')
   \<and> useNestedEditorContext (Some c) = Inr c"
  by (simp add: useNestedEditorContext_def)

text \<open>The hooks and the component read the context first, so they fail the same way.\<close>

lemma hooks_outside_provider:
  "useMdastNodeUpdater None
     = Inl (Error ''useNestedEditor must be used within a NestedEditorsProvider'')"
  "useLexicalNodeRemove None
     = Inl (Error ''useNestedEditor must be used within a NestedEditorsProvider'')"
  "NestedLexicalEditor props v None st
     = Inl (Error ''useNestedEditor must be used within a NestedEditorsProvider'')"
  by (simp_all add: useMdastNodeUpdater_def useLexicalNodeRemove_def NestedLexicalEditor_def
      useNestedEditorContext_def)

section \<open>The import effect over renders\<close>

text \<open>
  C3, as stated, fails when only the content changes: the second render below has a new
  content array and the same block flag and registry, and the child surface still holds
  the import of the first content, which differs from the import of the second.
\<close>

theorem content_change_counterexample:
  "getContent (example_props (Some True)) (mdastNode context_a)
     \<noteq> getContent (example_props (Some True)) (mdastNode context_b)
   \<and> renders [(example_props (Some True), 0, Some context_a),
               (example_props (Some True), 0, Some context_b)] mount
       = Inr \<lparr>child = import_effect True (getContent (example_props (Some True)) (mdastNode context_a)) [],
              import_deps = Some (True, 0)\<rparr>
   \<and> import_effect True (getContent (example_props (Some True)) (mdastNode context_a)) []
       \<noteq> import_effect True (getContent (example_props (Some True)) (mdastNode context_b))
            (import_effect True (getContent (example_props (Some True)) (mdastNode context_a)) [])"
  by (simp add: example_props_def context_a_def context_b_def mount_def NestedLexicalEditor_def
      useNestedEditorContext_def block_flag_def import_effect_eq theContent_def Let_def)

text \<open>
  C3, amended. A render inside a provider never fails. On the first render, and on each
  render whose block flag or visitor registry differs from the previous render's, the
  child surface is cleared and holds the import of the current content: in block mode the
  content list itself (one empty paragraph when the list is empty), in inline mode the
  content wrapped in one paragraph. On every other render, a change of the content
  included, the adapter keeps its state.
\<close>

theorem reimport_on_dependency_change:
  "\<exists>st'. NestedLexicalEditor props importVisitors (Some c) st = Inr st'
     \<and> (import_deps st \<noteq> Some (block_flag props, importVisitors) \<longrightarrow>
          import_deps st' = Some (block_flag props, importVisitors)
          \<and> child st' =
              (if block_flag props then
                 (if getContent props (mdastNode c) = [] then [LexicalElement ''paragraph'' []]
                  else map importNode (getContent props (mdastNode c)))
               else [LexicalElement ''paragraph'' (map importNode (getContent props (mdastNode c)))]))
     \<and> (import_deps st = Some (block_flag props, importVisitors) \<longrightarrow> st' = st)"
  by (simp add: NestedLexicalEditor_def useNestedEditorContext_def import_effect_eq theContent_def
      Let_def)

theorem reimport_on_dependency_change_witness:
  "import_deps mount \<noteq> Some (block_flag (example_props (Some True)), 0)
   \<and> NestedLexicalEditor (example_props (Some True)) 0 (Some context_a) mount
       = Inr \<lparr>child = [LexicalElement ''paragraph'' [LexicalText ''text'' ''a'']],
              import_deps = Some (True, 0)\<rparr>
   \<and> import_deps \<lparr>child = [LexicalElement ''paragraph'' [LexicalText ''text'' ''a'']],
                   import_deps = Some (True, 0)\<rparr> = Some (block_flag (example_props (Some True)), 0)
   \<and> NestedLexicalEditor (example_props (Some True)) 0 (Some context_b)
        \<lparr>child = [LexicalElement ''paragraph'' [LexicalText ''text'' ''a'']],
         import_deps = Some (True, 0)\<rparr>
       = Inr \<lparr>child = [LexicalElement ''paragraph'' [LexicalText ''text'' ''a'']],
              import_deps = Some (True, 0)\<rparr>
   \<and> import_deps \<lparr>child = [LexicalElement ''paragraph'' [LexicalText ''text'' ''a'']],
                   import_deps = Some (True, 0)\<rparr> \<noteq> Some (block_flag (example_props None), 0)
   \<and> NestedLexicalEditor (example_props None) 0 (Some context_b)
        \<lparr>child = [LexicalElement ''paragraph'' [LexicalText ''text'' ''a'']],
         import_deps = Some (True, 0)\<rparr>
       = Inr \<lparr>child = [LexicalElement ''paragraph''
                         [LexicalElement ''paragraph'' [LexicalText ''text'' ''b'']]],
              import_deps = Some (False, 0)\<rparr>"
  using reimport_on_dependency_change [of "example_props (Some True)" 0 context_a mount]
    reimport_on_dependency_change [of "example_props (Some True)" 0 context_b
      "\<lparr>child = [LexicalElement ''paragraph'' [LexicalText ''text'' ''a'']],
        import_deps = Some (True, 0)\<rparr>"]
    reimport_on_dependency_change [of "example_props None" 0 context_b
      "\<lparr>child = [LexicalElement ''paragraph'' [LexicalText ''text'' ''a'']],
        import_deps = Some (True, 0)\<rparr>"]
  by (auto simp: mount_def example_props_def block_flag_def context_a_def context_b_def)

section \<open>Updating and removing the owning node\<close>

lemma updateMdastNode_stale:
  "getNodeByKey p key = None \<Longrightarrow>
   updateMdastNode key node p = Inr (p\<lparr>history := history p @ [[''history-push'']]\<rparr>)"
  by (simp add: updateMdastNode_def update_def addUpdateTag_def Let_def)

lemma updateMdastNode_history:
  "\<exists>p'. updateMdastNode key node p = Inr p' \<and> history p' = history p @ [[''history-push'']]"
  by (simp add: updateMdastNode_def update_def addUpdateTag_def Let_def setMdastNode_def
      split: option.splits)





text \<open>
  C4. The removal, run when the key of the owning node no longer resolves in the parent
  surface: the lookup returns \<open>null\<close>, and the call of \<open>selectNext\<close> on it raises a
  \<open>TypeError\<close> inside the update. The removal is not skipped silently.
\<close>

theorem removeNode_stale_key:
  "removeNode ''k1'' stale_parent
     = Inl (TypeError ''Cannot read properties of null (reading selectNext)'')"
  by (simp add: removeNode_def update_def getNodeByKey_def stale_parent_def)

text \<open>
  C5, as stated, fails on an empty child surface in inline mode: with the owning node
  removed from the parent surface, the blur handler reads \<open>children\<close> of the missing
  first child of the exported root and raises a \<open>TypeError\<close>.
\<close>

theorem blur_stale_node_empty_inline_counterexample:
  "getNodeByKey stale_parent (lexicalNode example_context) = None
   \<and> blur_handler (example_props None) example_context [] stale_parent
       = Inl (TypeError ''Cannot read properties of undefined (reading children)'')"
  by (simp add: getNodeByKey_def stale_parent_def example_context_def blur_handler_def
      export_content_def exportLexicalTreeToMdast_def block_flag_def example_props_def)

text \<open>
  C5, amended. When the owning node was removed from the parent surface before the blur,
  and the child surface holds a top-level node or the adapter is in block mode, the blur
  handler raises nothing: it returns \<open>true\<close>, calls the updater once, and its update of
  the parent surface changes no node and no selection.
\<close>

theorem blur_stale_node:
  assumes "getNodeByKey p (lexicalNode c) = None" and "block_flag props \<or> root \<noteq> []"
  shows "\<exists>content. blur_handler props c root p
           = Inr \<lparr>handled = True, updater_calls = [(mdastNode c, content)],
                  parent = p\<lparr>history := history p @ [[''history-push'']]\<rparr>\<rparr>"
proof -
  from assms(2) obtain content where "export_content (block_flag props) root = Inr content"
    using export_content_ok by blast
  then show ?thesis
    using assms(1) by (simp add: blur_handler_def updateMdastNode_stale structuredClone_def)
qed

theorem blur_stale_node_witness:
  "getNodeByKey stale_parent (lexicalNode example_context) = None
   \<and> [LexicalElement ''paragraph'' [LexicalText ''text'' ''ab'']] \<noteq> []
   \<and> (\<exists>content. blur_handler (example_props None) example_context
          [LexicalElement ''paragraph'' [LexicalText ''text'' ''ab'']] stale_parent
        = Inr \<lparr>handled = True, updater_calls = [(mdastNode example_context, content)],
               parent = stale_parent\<lparr>history := history stale_parent @ [[''history-push'']]\<rparr>\<rparr>)"
  using blur_stale_node [of stale_parent example_context "example_props None"
      "[LexicalElement ''paragraph'' [LexicalText ''text'' ''ab'']]"]
  by (simp add: getNodeByKey_def stale_parent_def example_context_def)




section \<open>Blur after typing\<close>

lemma mdast_text_exportNode: "mdast_text (exportNode n) = lexical_text n"
  by (induction n) (simp_all add: comp_def cong: map_cong)

lemma content_text_export:
  "content_text (Some (map exportNode ns)) = concat (map lexical_text ns)"
  by (simp add: content_text_def comp_def mdast_text_exportNode)

lemma export_content_covered:
  assumes "b \<or> root \<noteq> []"
  shows "\<exists>content. export_content b root = Inr content \<and> content_text content = covered_text b root"
proof (cases b)
  case True
  then have "export_content b root = Inr (Some (map exportNode root))"
    by (simp add: export_content_def exportLexicalTreeToMdast_def)
  then show ?thesis
    using True by (simp add: content_text_export covered_text_def)
next
  case False
  with assms obtain r rs where root: "root = r # rs" by (cases root) auto
  have e: "export_content b root = Inr (children_prop (exportNode r))"
    using False root by (simp add: export_content_def exportLexicalTreeToMdast_def)
  have "content_text (children_prop (exportNode r)) = covered_text b root"
  proof (cases r)
    case (LexicalElement ty cs)
    then show ?thesis
      using False root content_text_export [of cs] by (simp add: covered_text_def)
  qed (simp_all add: False root covered_text_def content_text_def)
  then show ?thesis using e by simp
qed

text \<open>
  The update of \<open>updateMdastNode\<close>, spelled out: the node with the key, if there is
  one, gets the new abstract node, every other node and the selection stay, and one update
  with the tag is recorded.
\<close>

lemma updateMdastNode_result:
  "updateMdastNode key node p
     = Inr (p\<lparr>nodes := map (\<lambda>(k, m). (k, if k = key then node else m)) (nodes p),
              history := history p @ [[''history-push'']]\<rparr>)"
proof (cases "getNodeByKey p key")
  case None
  then have "key \<notin> fst ` set (nodes p)"
    by (simp add: getNodeByKey_def map_of_eq_None_iff)
  then have "map (\<lambda>(k, m). (k, if k = key then node else m)) (nodes p) = nodes p"
    by (intro map_idI) force
  then show ?thesis
    using None by (simp add: updateMdastNode_stale)
next
  case (Some m)
  have "(\<lambda>(k, m). if k = key then (k, node) else (k, m))
          = (\<lambda>(k, m). (k, if k = key then node else m))"
    by (auto simp: fun_eq_iff)
  then show ?thesis
    using Some by (simp add: updateMdastNode_def update_def addUpdateTag_def Let_def setMdastNode_def)
qed

text \<open>
  C2, as stated, fails in inline mode when the typed text is in a top-level node other
  than the first: the child surface below holds the typed \<open>b\<close>, and the one call the
  handler makes passes only the children of the first exported node, without it.
\<close>

theorem blur_after_insert_second_paragraph_counterexample:
  "sublist ''b'' (concat (map lexical_text
      [LexicalElement ''paragraph'' [LexicalText ''text'' ''a''],
       LexicalElement ''paragraph'' [LexicalText ''text'' ''b'']]))
   \<and> blur_handler (example_props None) example_context
        [LexicalElement ''paragraph'' [LexicalText ''text'' ''a''],
         LexicalElement ''paragraph'' [LexicalText ''text'' ''b'']] example_parent
     = Inr \<lparr>handled = True,
            updater_calls = [(mdastNode example_context, Some [Literal ''text'' ''a''])],
            parent = example_parent\<lparr>history := [[''history-push'']]\<rparr>\<rparr>
   \<and> \<not> sublist ''b'' (content_text (Some [Literal ''text'' ''a'']))"
  by (simp add: blur_handler_def export_content_def exportLexicalTreeToMdast_def
      example_props_def block_flag_def example_context_def example_parent_def structuredClone_def
      updateMdastNode_def update_def addUpdateTag_def getNodeByKey_def setMdastNode_def
      example_getUpdatedMdastNode_def content_text_def Let_def sublist_Cons_right)

text \<open>
  C2, amended. For every child surface that holds a typed text in the part the export
  covers (anywhere in block mode, within the first top-level node in inline mode), the
  blur handler calls \<open>getUpdatedMdastNode\<close> exactly once, on the abstract node of the
  context and the content exported from the child surface as it is; the text of that
  content contains the typed text; the node the call returns is set on the owning node of
  the parent surface, all other nodes and the selection stay; and the parent surface gets
  exactly one more update, which carries the tag \<open>history-push\<close>.
\<close>

theorem blur_reflects_typed_text:
  assumes "t \<noteq> []" and "sublist t (covered_text (block_flag props) root)"
  shows "\<exists>content p'.
           blur_handler props c root p
             = Inr \<lparr>handled = True, updater_calls = [(mdastNode c, content)], parent = p'\<rparr>
         \<and> export_content (block_flag props) root = Inr content
         \<and> sublist t (content_text content)
         \<and> nodes p' = map (\<lambda>(k, m). (k, if k = lexicalNode c
                                           then getUpdatedMdastNode props (mdastNode c) content
                                           else m)) (nodes p)
         \<and> selection p' = selection p
         \<and> history p' = history p @ [[''history-push'']]"
proof -
  have "block_flag props \<or> root \<noteq> []"
    using assms by (auto simp: covered_text_def)
  from export_content_covered [OF this] obtain content
    where content: "export_content (block_flag props) root = Inr content"
      and covered: "content_text content = covered_text (block_flag props) root"
    by blast
  let ?node = "getUpdatedMdastNode props (mdastNode c) content"
  let ?p' = "p\<lparr>nodes := map (\<lambda>(k, m). (k, if k = lexicalNode c then ?node else m)) (nodes p),
               history := history p @ [[''history-push'']]\<rparr>"
  have "blur_handler props c root p
      = Inr \<lparr>handled = True, updater_calls = [(mdastNode c, content)], parent = ?p'\<rparr>"
    using content
    by (simp add: blur_handler_def structuredClone_def Let_def updateMdastNode_result)
  moreover have "sublist t (content_text content)"
    using assms(2) covered by simp
  ultimately show ?thesis
    using content by (intro exI [of _ content] exI [of _ ?p']) simp
qed

theorem blur_reflects_typed_text_witness:
  "''b'' \<noteq> []
   \<and> sublist ''b'' (covered_text (block_flag (example_props None))
        [LexicalElement ''paragraph'' [LexicalText ''text'' ''ab'']])
   \<and> (\<exists>content p'.
         blur_handler (example_props None) example_context
           [LexicalElement ''paragraph'' [LexicalText ''text'' ''ab'']] example_parent
           = Inr \<lparr>handled = True, updater_calls = [(mdastNode example_context, content)], parent = p'\<rparr>
         \<and> content = Some [Literal ''text'' ''ab'']
         \<and> sublist ''b'' (content_text content)
         \<and> nodes p' = [(''k0'', Void ''thematicBreak''),
                        (''k1'', Parent ''leafDirective'' [Literal ''text'' ''ab'']),
                        (''k2'', Void ''thematicBreak'')]
         \<and> selection p' = selection example_parent
         \<and> history p' = history example_parent @ [[''history-push'']])"
proof -
  have t: "''b'' \<noteq> []" by simp
  have cov: "sublist ''b'' (covered_text (block_flag (example_props None))
        [LexicalElement ''paragraph'' [LexicalText ''text'' ''ab'']])"
    by (simp add: covered_text_def block_flag_def example_props_def sublist_Cons_right)
  from blur_reflects_typed_text [OF t cov, of example_context example_parent]
  obtain content p' where
    1: "blur_handler (example_props None) example_context
           [LexicalElement ''paragraph'' [LexicalText ''text'' ''ab'']] example_parent
           = Inr \<lparr>handled = True, updater_calls = [(mdastNode example_context, content)], parent = p'\<rparr>"
    and 2: "export_content (block_flag (example_props None))
              [LexicalElement ''paragraph'' [LexicalText ''text'' ''ab'']] = Inr content"
    and 3: "sublist ''b'' (content_text content)"
    and 4: "nodes p' = map (\<lambda>(k, m). (k, if k = lexicalNode example_context
                 then getUpdatedMdastNode (example_props None) (mdastNode example_context) content
                 else m)) (nodes example_parent)"
    and 5: "selection p' = selection example_parent"
    and 6: "history p' = history example_parent @ [[''history-push'']]"
    by blast
  from 2 have c: "content = Some [Literal ''text'' ''ab'']"
    by (simp add: export_content_def exportLexicalTreeToMdast_def block_flag_def example_props_def)
  from 4 c have "nodes p' = [(''k0'', Void ''thematicBreak''),
                        (''k1'', Parent ''leafDirective'' [Literal ''text'' ''ab'']),
                        (''k2'', Void ''thematicBreak'')]"
    by (simp add: example_parent_def example_context_def example_props_def
        example_getUpdatedMdastNode_def)
  with t cov 1 c 3 5 6 show ?thesis by blast
qed

section \<open>The wrapper\<close>

text \<open>
  C9. Constructing the root surface of the wrapper never raises: when the import of the
  markdown raises an error, the error is printed by the error callback of the
  configuration and the root stays empty; when it raises none, the root is what the
  import built and nothing is printed.
\<close>

theorem construction_errors_logged:
  "\<exists>root console'.
     Wrapper importMarkdownToLexical markdown console = Inr (root, console')
     \<and> (\<forall>e. importMarkdownToLexical [] markdown = Inl e \<longrightarrow> root = [] \<and> console' = console @ [e])
     \<and> (\<forall>r. importMarkdownToLexical [] markdown = Inr r \<longrightarrow> root = r \<and> console' = console)"
  by (cases "importMarkdownToLexical [] markdown")
    (simp_all add: Wrapper_def LexicalComposer_def standardConfig_def)

theorem construction_errors_logged_witness:
  "example_importMarkdownToLexical [] ''<'' = Inl (Error ''Unexpected end of file'')
   \<and> Wrapper example_importMarkdownToLexical ''<'' [] = Inr ([], [Error ''Unexpected end of file''])
   \<and> example_importMarkdownToLexical [] ''a'' = Inr [LexicalElement ''paragraph'' [LexicalText ''text'' ''a'']]
   \<and> Wrapper example_importMarkdownToLexical ''a'' []
       = Inr ([LexicalElement ''paragraph'' [LexicalText ''text'' ''a'']], [])"
  using construction_errors_logged [of example_importMarkdownToLexical "''<''" "[]"]
    construction_errors_logged [of example_importMarkdownToLexical "''a''" "[]"]
  by (auto simp: example_importMarkdownToLexical_def)

section \<open>The store: what the blur handler leaves alone\<close>

text \<open>
  Appending an object that points into the closed part keeps the store closed, and
  nothing below a closed part can be reached from inside it.
\<close>

lemma closed_from_length: "closed_from (length h) h"
  by (simp add: closed_from_def)

lemma closed_from_snoc:
  assumes "closed_from L h" and "\<forall>ks. obj_children ob = Some ks \<longrightarrow> (\<forall>k\<in>set ks. L \<le> k \<and> k < length h)"
  shows "closed_from L (h @ [ob])"
  unfolding closed_from_def
proof (intro allI impI)
  fix x ks k
  assume x: "L \<le> x" "x < length (h @ [ob])" and ks: "obj_children ((h @ [ob]) ! x) = Some ks"
    and k: "k \<in> set ks"
  show "L \<le> k \<and> k < length (h @ [ob])"
  proof (cases "x < length h")
    case True
    then have "obj_children (h ! x) = Some ks" using ks by (simp add: nth_append)
    then have "L \<le> k \<and> k < length h"
      using assms(1) x(1) True k unfolding closed_from_def by blast
    then show ?thesis by simp
  next
    case False
    then have "x = length h" using x(2) by simp
    then have "obj_children ob = Some ks" using ks by simp
    then have "L \<le> k \<and> k < length h" using assms(2) k by blast
    then show ?thesis by simp
  qed
qed

lemma reach_closed:
  assumes "closed_from L h" and "\<forall>a\<in>S. L \<le> a \<and> a < length h" and "x \<in> reach h S"
  shows "L \<le> x \<and> x < length h"
  using assms(3)
proof (induction rule: reach.induct)
  case (start a)
  then show ?case using assms(2) by blast
next
  case (step a ks k)
  then show ?case using assms(1) unfolding closed_from_def by blast
qed

text \<open>The copy and the construction of a tree both allocate.\<close>

lemma thread_allocating:
  assumes "allocating f"
  shows "thread f ks h = Some (ks', h') \<Longrightarrow> L \<le> length h \<Longrightarrow> closed_from L h \<Longrightarrow>
         prefix h h' \<and> (\<forall>k\<in>set ks'. length h \<le> k \<and> k < length h') \<and> closed_from L h'"
proof (induction ks arbitrary: h ks' h')
  case Nil
  then show ?case by simp
next
  case (Cons k ks)
  from Cons.prems(1) obtain k1 h1 ks1 where
    f: "f k h = Some (k1, h1)" and t: "thread f ks h1 = Some (ks1, h')" and ks': "ks' = k1 # ks1"
    by (auto split: option.splits)
  from assms f Cons.prems(2,3) have 1: "prefix h h1" "length h \<le> k1" "k1 < length h1" "closed_from L h1"
    unfolding allocating_def by blast+
  have len: "length h \<le> length h1" using 1(1) by (rule prefix_length_le)
  from Cons.IH [OF t] len Cons.prems(2) 1(4)
  have 2: "prefix h1 h'" "\<forall>k\<in>set ks1. length h1 \<le> k \<and> k < length h'" "closed_from L h'"
    by auto
  have len2: "length h1 \<le> length h'" using 2(1) by (rule prefix_length_le)
  show ?case
    using 1 2 len len2 ks' by (auto intro: prefix_order.trans)
qed

lemma clone_allocating: "allocating (clone n)"
proof (induction n)
  case 0
  then show ?case by (simp add: allocating_def)
next
  case (Suc n)
  show ?case
    unfolding allocating_def
  proof (intro allI impI)
    fix a h a' h' L
    assume c: "clone (Suc n) a h = Some (a', h')" and L: "L \<le> length h" and cl: "closed_from L h"
    from c have a: "a < length h" by (simp split: if_splits)
    obtain ty v ko where ob: "h ! a = Obj ty v ko" by (cases "h ! a")
    show "prefix h h' \<and> length h \<le> a' \<and> a' < length h' \<and> closed_from L h'"
    proof (cases ko)
      case None
      then have "a' = length h" "h' = h @ [Obj ty v None]" using c a ob by auto
      then show ?thesis using closed_from_snoc [OF cl, of "Obj ty v None"] by simp
    next
      case (Some ks)
      then obtain ks' h1 where t: "thread (clone n) ks h = Some (ks', h1)"
        and r: "a' = length h1" "h' = h1 @ [Obj ty v (Some ks')]"
        using c a ob by (auto split: option.splits)
      from thread_allocating [OF Suc t L cl]
      have 1: "prefix h h1" "\<forall>k\<in>set ks'. length h \<le> k \<and> k < length h1" "closed_from L h1"
        by auto
      have len: "length h \<le> length h1" using 1(1) by (rule prefix_length_le)
      have "closed_from L (h1 @ [Obj ty v (Some ks')])"
        using 1(2) L by (intro closed_from_snoc [OF 1(3)]) auto
      then show ?thesis using r 1(1) len by (auto intro: prefix_order.trans)
    qed
  qed
qed

lemma alloc_allocating:
  "(alloc t h = (a', h') \<longrightarrow> L \<le> length h \<longrightarrow> closed_from L h \<longrightarrow>
      prefix h h' \<and> length h \<le> a' \<and> a' < length h' \<and> closed_from L h')"
  "(alloc_list ts h = (ks', h') \<longrightarrow> L \<le> length h \<longrightarrow> closed_from L h \<longrightarrow>
      prefix h h' \<and> (\<forall>k\<in>set ks'. length h \<le> k \<and> k < length h') \<and> closed_from L h')"
proof (induction t h and ts h arbitrary: a' h' and ks' h' rule: alloc_alloc_list.induct)
  case (1 ty v h)
  show ?case using closed_from_snoc [of L h "Obj ty (Some v) None"] by auto
next
  case (2 ty cs h)
  show ?case
  proof (intro impI)
    assume al: "alloc (Parent ty cs) h = (a', h')" and L: "L \<le> length h" and cl: "closed_from L h"
    obtain ks h1 where l: "alloc_list cs h = (ks, h1)" by (cases "alloc_list cs h")
    then have r: "a' = length h1" "h' = h1 @ [Obj ty None (Some ks)]" using al by auto
    from 2 [of ks h1] l L cl
    have 1: "prefix h h1" "\<forall>k\<in>set ks. length h \<le> k \<and> k < length h1" "closed_from L h1"
      by auto
    have len: "length h \<le> length h1" using 1(1) by (rule prefix_length_le)
    have "closed_from L (h1 @ [Obj ty None (Some ks)])"
      using 1(2) L by (intro closed_from_snoc [OF 1(3)]) auto
    then show "prefix h h' \<and> length h \<le> a' \<and> a' < length h' \<and> closed_from L h'"
      using r 1(1) len by (auto intro: prefix_order.trans)
  qed
next
  case (3 ty h)
  show ?case using closed_from_snoc [of L h "Obj ty None None"] by auto
next
  case (4 h)
  show ?case by auto
next
  case (5 c cs h)
  show ?case
  proof (intro impI)
    assume al: "alloc_list (c # cs) h = (ks', h')" and L: "L \<le> length h" and cl: "closed_from L h"
    obtain k h1 where a: "alloc c h = (k, h1)" by (cases "alloc c h")
    obtain ks h2 where l: "alloc_list cs h1 = (ks, h2)" by (cases "alloc_list cs h1")
    have r: "ks' = k # ks" "h' = h2" using al a l by auto
    from 5(1) [of k h1] a L cl
    have 1: "prefix h h1" "length h \<le> k" "k < length h1" "closed_from L h1" by auto
    have len: "length h \<le> length h1" using 1(1) by (rule prefix_length_le)
    from 5(2) [OF a [symmetric], of ks h2] l L len 1(4)
    have 2: "prefix h1 h2" "\<forall>k\<in>set ks. length h1 \<le> k \<and> k < length h2" "closed_from L h2"
      by auto
    have len2: "length h1 \<le> length h2" using 2(1) by (rule prefix_length_le)
    show "prefix h h' \<and> (\<forall>k\<in>set ks'. length h \<le> k \<and> k < length h') \<and> closed_from L h'"
      using r 1 2 len len2 by (auto intro: prefix_order.trans)
  qed
qed

lemma prefix_nth: "prefix h h' \<Longrightarrow> x < length h \<Longrightarrow> h' ! x = h ! x"
  by (auto simp: prefix_def nth_append)

text \<open>
  The exported content and the copy of the abstract node lie above the store as it was.
\<close>

lemma export_content_store_fresh:
  assumes "export_content_store b root h = (Inr content, h2)"
  shows "prefix h h2 \<and> closed_from (length h) h2
         \<and> (\<forall>k\<in>content_addrs content. length h \<le> k \<and> k < length h2)"
proof -
  obtain ks h1 where l: "alloc_list (root_children (exportLexicalTreeToMdast root)) h = (ks, h1)"
    by (cases "alloc_list (root_children (exportLexicalTreeToMdast root)) h")
  from alloc_allocating(2) [of "root_children (exportLexicalTreeToMdast root)" h ks h1 "length h"] l
  have 1: "prefix h h1" "\<forall>k\<in>set ks. length h \<le> k \<and> k < length h1" "closed_from (length h) h1"
    by (auto simp: closed_from_length)
  have len: "length h \<le> length h1" using 1(1) by (rule prefix_length_le)
  have h2: "h2 = h1 @ [Obj ''root'' None (Some ks)]"
    using assms l by (simp add: export_content_store_def Let_def)
  have cl: "closed_from (length h) h2"
    unfolding h2 using 1(2) by (intro closed_from_snoc [OF 1(3)]) auto
  have pre: "prefix h h2"
    unfolding h2 using 1(1) by (auto intro: prefix_order.trans)
  have "\<forall>k\<in>content_addrs content. length h \<le> k \<and> k < length h2"
  proof (cases b)
    case True
    then have "content = Some ks"
      using assms l by (simp add: export_content_store_def Let_def)
    then show ?thesis using 1(2) h2 by (auto simp: content_addrs_def)
  next
    case False
    then obtain k ks0 where ks: "ks = k # ks0" and c: "content = obj_children (h2 ! k)"
      using assms l h2 by (cases ks) (auto simp: export_content_store_def Let_def)
    have k: "length h \<le> k" "k < length h2" using 1(2) ks h2 by auto
    show ?thesis
    proof (cases content)
      case None
      then show ?thesis by (simp add: content_addrs_def)
    next
      case (Some cs)
      then have "\<forall>x\<in>set cs. length h \<le> x \<and> x < length h2"
        using cl k c unfolding closed_from_def by metis
      then show ?thesis using Some by (simp add: content_addrs_def)
    qed
  qed
  then show ?thesis using pre cl by blast
qed

lemma structuredClone_store_fresh:
  assumes "structuredClone_store a h = Some (a', h')" and "L \<le> length h" and "closed_from L h"
  shows "prefix h h' \<and> length h \<le> a' \<and> a' < length h' \<and> closed_from L h'"
  using clone_allocating [of "length h"] assms
  unfolding allocating_def structuredClone_store_def by blast

text \<open>
  C10. The blur handler changes no object that was in the store before it ran, whatever
  the caller-supplied updater writes to the node and the content it is given: the updater
  gets a deep copy of the abstract node of the context, and neither the copy nor the
  exported content shares an object with the store as it was. So the abstract node the
  adapter was given, and everything below it, is as before.
\<close>

theorem blur_keeps_store:
  assumes "writes_through_arguments getUpdated"
    and "blur_handler_store getUpdated b c root (h, p) = Some (Inr (h', p'))"
  shows "take (length h) h' = h"
proof -
  obtain r h2 where e: "export_content_store b root h = (r, h2)"
    by (cases "export_content_store b root h")
  with assms(2) obtain content where r: "r = Inr content"
    by (cases r) (auto simp: blur_handler_store_def)
  from assms(2) e r obtain arg h3 where cl: "structuredClone_store (mdastNode c) h2 = Some (arg, h3)"
    by (auto simp: blur_handler_store_def split: option.splits)
  obtain node h4 where u: "getUpdated arg content h3 = (node, h4)"
    by (cases "getUpdated arg content h3")
  have h': "h' = h4"
    using assms(2) e r cl u by (auto simp: blur_handler_store_def split: sum.splits)
  from export_content_store_fresh [OF e [unfolded r]]
  have 1: "prefix h h2" "closed_from (length h) h2"
    "\<forall>k\<in>content_addrs content. length h \<le> k \<and> k < length h2"
    by auto
  have len2: "length h \<le> length h2" using 1(1) by (rule prefix_length_le)
  from structuredClone_store_fresh [OF cl len2 1(2)]
  have 2: "prefix h2 h3" "length h2 \<le> arg" "arg < length h3" "closed_from (length h) h3"
    by auto
  have len3: "length h2 \<le> length h3" using 2(1) by (rule prefix_length_le)
  have S: "\<forall>a\<in>insert arg (content_addrs content). length h \<le> a \<and> a < length h3"
    using 1(3) 2(2,3) len2 len3 by auto
  from assms(1) u have 3: "length h3 \<le> length h4"
    "\<forall>x < length h3. x \<notin> reach h3 (insert arg (content_addrs content)) \<longrightarrow> h4 ! x = h3 ! x"
    unfolding writes_through_arguments_def by blast+
  have "h' ! x = h ! x" if x: "x < length h" for x
  proof -
    have "x \<notin> reach h3 (insert arg (content_addrs content))"
      using reach_closed [OF 2(4) S, of x] x by auto
    moreover have "x < length h3" using x len2 len3 by simp
    ultimately have "h4 ! x = h3 ! x" using 3(2) by blast
    also have "h3 ! x = h2 ! x" using prefix_nth [OF 2(1)] x len2 by simp
    also have "h2 ! x = h ! x" using prefix_nth [OF 1(1)] x by simp
    finally show ?thesis using h' by simp
  qed
  moreover have "length h \<le> length h'" using h' 3(1) len2 len3 by simp
  ultimately show ?thesis by (intro nth_equalityI) simp_all
qed

text \<open>An updater that assigns to its argument acts on its arguments.\<close>

lemma assign_children_writes_through_arguments: "writes_through_arguments assign_children"
  unfolding writes_through_arguments_def
proof (intro allI impI)
  fix a content h node h'
  assume r: "assign_children a content h = (node, h')"
  have "a \<in> reach h (insert a (content_addrs content))" by (rule reach.start) simp
  then have "h' ! x = h ! x" if "x \<notin> reach h (insert a (content_addrs content))" for x
  proof -
    have "x \<noteq> a" using that \<open>a \<in> reach h (insert a (content_addrs content))\<close> by metis
    then show ?thesis using r by (auto simp: assign_children_def split: if_splits)
  qed
  moreover have "length h \<le> length h'"
    using r by (auto simp: assign_children_def split: if_splits)
  ultimately show "length h \<le> length h'
        \<and> (\<forall>x < length h. x \<notin> reach h (insert a (content_addrs content)) \<longrightarrow> h' ! x = h ! x)"
    by blast
qed

lemma example_blur_store:
  "blur_handler_store assign_children False \<lparr>mdastNode = 1, lexicalNode = ''k1''\<rparr>
     [LexicalElement ''paragraph'' [LexicalText ''text'' ''b'']] (example_store, example_store_parent)
   = Some (Inr ([Obj ''text'' (Some ''a'') None, Obj ''leafDirective'' None (Some [0]),
                 Obj ''text'' (Some ''b'') None, Obj ''paragraph'' None (Some [2]),
                 Obj ''root'' None (Some [3]), Obj ''text'' (Some ''a'') None,
                 Obj ''leafDirective'' None (Some [2])],
                \<lparr>nodes = [(''k1'', 6)], selection = NoSelection, history = [[''history-push'']]\<rparr>))"
  by code_simp

theorem blur_keeps_store_witness:
  "writes_through_arguments assign_children
   \<and> blur_handler_store assign_children False \<lparr>mdastNode = 1, lexicalNode = ''k1''\<rparr>
       [LexicalElement ''paragraph'' [LexicalText ''text'' ''b'']] (example_store, example_store_parent)
     = Some (Inr ([Obj ''text'' (Some ''a'') None, Obj ''leafDirective'' None (Some [0]),
                   Obj ''text'' (Some ''b'') None, Obj ''paragraph'' None (Some [2]),
                   Obj ''root'' None (Some [3]), Obj ''text'' (Some ''a'') None,
                   Obj ''leafDirective'' None (Some [2])],
                  \<lparr>nodes = [(''k1'', 6)], selection = NoSelection, history = [[''history-push'']]\<rparr>))
   \<and> take (length example_store)
         [Obj ''text'' (Some ''a'') None, Obj ''leafDirective'' None (Some [0]),
          Obj ''text'' (Some ''b'') None, Obj ''paragraph'' None (Some [2]),
          Obj ''root'' None (Some [3]), Obj ''text'' (Some ''a'') None,
          Obj ''leafDirective'' None (Some [2])] = example_store"
  using blur_keeps_store [OF assign_children_writes_through_arguments example_blur_store]
    assign_children_writes_through_arguments example_blur_store
  by blast

text \<open>
  The copy never runs out of fuel on a tree: every tree that was built in the store, in
  a store that has grown since, has a copy; so the blur handler on the store is defined
  whenever the abstract node of the context is such a tree.
\<close>

lemma alloc_length:
  "length (snd (alloc t h)) = length h + node_count t"
  "length (snd (alloc_list ts h)) = length h + sum_list (map node_count ts)"
  by (induction t h and ts h rule: alloc_alloc_list.induct) (auto split: prod.splits)

lemma clone_alloc:
  "alloc t h0 = (a, h) \<longrightarrow> prefix h H \<longrightarrow> node_count t \<le> n \<longrightarrow>
     (\<exists>a' H'. clone n a H = Some (a', H'))"
  "alloc_list ts h0 = (ks, h) \<longrightarrow> prefix h H \<longrightarrow> (\<forall>t\<in>set ts. node_count t \<le> n) \<longrightarrow>
     (\<exists>ks' H'. thread (clone n) ks H = Some (ks', H'))"
proof (induction t h0 and ts h0 arbitrary: a h H n and ks h H n rule: alloc_alloc_list.induct)
  case (1 ty v h0)
  show ?case
  proof (intro impI)
    assume al: "alloc (Literal ty v) h0 = (a, h)" and pre: "prefix h H" and n: "node_count (Literal ty v) \<le> n"
    obtain m where m: "n = Suc m" using n by (cases n) auto
    have a: "a < length h" "h ! a = Obj ty (Some v) None" using al by auto
    then have "a < length H" "H ! a = Obj ty (Some v) None"
      using pre prefix_length_le [OF pre] prefix_nth [OF pre, of a] by auto
    then show "\<exists>a' H'. clone n a H = Some (a', H')" by (simp add: m)
  qed
next
  case (2 ty cs h0)
  show ?case
  proof (intro impI)
    assume al: "alloc (Parent ty cs) h0 = (a, h)" and pre: "prefix h H" and n: "node_count (Parent ty cs) \<le> n"
    obtain m where m: "n = Suc m" using n by (cases n) auto
    obtain ks h1 where l: "alloc_list cs h0 = (ks, h1)" by (cases "alloc_list cs h0")
    then have r: "a = length h1" "h = h1 @ [Obj ty None (Some ks)]" using al by auto
    have a: "a < length h" "h ! a = Obj ty None (Some ks)" using r by auto
    then have A: "a < length H" "H ! a = Obj ty None (Some ks)"
      using pre prefix_length_le [OF pre] prefix_nth [OF pre, of a] by auto
    have pre1: "prefix h1 H" using pre r by (auto dest: append_prefixD)
    have "\<forall>t\<in>set cs. node_count t \<le> m"
      using n m member_le_sum_list [of _ "map node_count cs"] by fastforce
    with 2 [of ks h1 H m] l pre1 obtain ks' H' where "thread (clone m) ks H = Some (ks', H')"
      by blast
    then show "\<exists>a' H'. clone n a H = Some (a', H')" using A by (simp add: m)
  qed
next
  case (3 ty h0)
  show ?case
  proof (intro impI)
    assume al: "alloc (Void ty) h0 = (a, h)" and pre: "prefix h H" and n: "node_count (Void ty) \<le> n"
    obtain m where m: "n = Suc m" using n by (cases n) auto
    have a: "a < length h" "h ! a = Obj ty None None" using al by auto
    then have "a < length H" "H ! a = Obj ty None None"
      using pre prefix_length_le [OF pre] prefix_nth [OF pre, of a] by auto
    then show "\<exists>a' H'. clone n a H = Some (a', H')" by (simp add: m)
  qed
next
  case (4 h0)
  show ?case by auto
next
  case (5 c cs h0)
  show ?case
  proof (intro impI)
    assume al: "alloc_list (c # cs) h0 = (ks, h)" and pre: "prefix h H"
      and n: "\<forall>t\<in>set (c # cs). node_count t \<le> n"
    obtain k h1 where a: "alloc c h0 = (k, h1)" by (cases "alloc c h0")
    obtain ks0 h2 where l: "alloc_list cs h1 = (ks0, h2)" by (cases "alloc_list cs h1")
    have r: "ks = k # ks0" "h = h2" using al a l by auto
    from alloc_allocating(2) [of cs h1 ks0 h2 "length h1"] l
    have "prefix h1 h2" by (simp add: closed_from_length)
    then have pre1: "prefix h1 H" using pre r by (auto intro: prefix_order.trans)
    from 5(1) [of k h1 H n] a pre1 n obtain k' H1 where c1: "clone n k H = Some (k', H1)"
      by auto
    from clone_allocating [of n] c1 have "prefix H H1"
      unfolding allocating_def using closed_from_length [of H] by blast
    then have pre2: "prefix h2 H1" using pre r by (auto intro: prefix_order.trans)
    from 5(2) [OF a [symmetric], of ks0 h2 H1 n] l pre2 n
    obtain ks' H' where "thread (clone n) ks0 H1 = Some (ks', H')" by auto
    then show "\<exists>ks' H'. thread (clone n) ks H = Some (ks', H')"
      using c1 r by simp
  qed
qed

lemma structuredClone_store_alloc:
  assumes "alloc t h0 = (a, h)" and "prefix h H"
  shows "\<exists>a' H'. structuredClone_store a H = Some (a', H')"
proof -
  have "length h = length h0 + node_count t" using alloc_length(1) [of t h0] assms(1) by simp
  then have "node_count t \<le> length H" using prefix_length_le [OF assms(2)] by simp
  then show ?thesis
    using clone_alloc(1) [of t h0 a h H "length H"] assms by (simp add: structuredClone_store_def)
qed

lemma export_content_store_prefix:
  assumes "export_content_store b root h = (r, h2)"
  shows "prefix h h2"
proof -
  obtain ks h1 where l: "alloc_list (root_children (exportLexicalTreeToMdast root)) h = (ks, h1)"
    by (cases "alloc_list (root_children (exportLexicalTreeToMdast root)) h")
  from alloc_allocating(2) [of "root_children (exportLexicalTreeToMdast root)" h ks h1 "length h"] l
  have "prefix h h1" by (simp add: closed_from_length)
  moreover have "h2 = h1 @ [Obj ''root'' None (Some ks)]"
    using assms l by (simp add: export_content_store_def Let_def)
  ultimately show ?thesis by (auto intro: prefix_order.trans)
qed

lemma blur_handler_store_defined:
  assumes "alloc t h0 = (mdastNode c, h)" and "prefix h H"
  shows "\<exists>r. blur_handler_store getUpdated b c root (H, p) = Some r"
proof -
  obtain r h2 where e: "export_content_store b root H = (r, h2)"
    by (cases "export_content_store b root H")
  have "prefix h h2"
    using assms(2) export_content_store_prefix [OF e] by (rule prefix_order.trans)
  from structuredClone_store_alloc [OF assms(1) this]
  obtain arg h3 where "structuredClone_store (mdastNode c) h2 = Some (arg, h3)" by blast
  then show ?thesis
    using e by (auto simp: blur_handler_store_def split: sum.splits prod.splits)
qed

end
